theory Spec2Isabelle
  imports Complex_Main "HOL-Library.AList"
begin

section \<open>Python values\<close>

text \<open>
  The aggregator works on loosely shaped dictionaries and inspects them with
  \<^verbatim>\<open>isinstance\<close> and truthiness tests, so the values a source can report are a
  datatype of JSON-shaped Python values. A \<^verbatim>\<open>float\<close> is represented by the exact
  rational number it denotes (Python compares \<^verbatim>\<open>int\<close> and \<^verbatim>\<open>float\<close> by exact value);
  NaN and the infinities are not represented. A \<^verbatim>\<open>dict\<close> is an association list
  in insertion order, read with \<open>map_of\<close> and written with \<open>AList.update\<close>, which
  keeps the position of an existing key as Python does. A \<^verbatim>\<open>str\<close> is a list of
  characters with code points below 256.
\<close>

datatype pyval =
    PNone
  | PBool bool
  | PInt int
  | PFloat rat
  | PStr string
  | PList "pyval list"
  | PDict "(string \<times> pyval) list"

type_synonym pydict = "(string \<times> pyval) list"

datatype py_exception = TypeError | ValueError

text \<open>\<^verbatim>\<open>if value\<close>: Python truthiness.\<close>

fun py_truthy :: "pyval \<Rightarrow> bool" where
  "py_truthy PNone = False"
| "py_truthy (PBool b) = b"
| "py_truthy (PInt i) = (i \<noteq> 0)"
| "py_truthy (PFloat r) = (r \<noteq> 0)"
| "py_truthy (PStr s) = (s \<noteq> [])"
| "py_truthy (PList xs) = (xs \<noteq> [])"
| "py_truthy (PDict d) = (d \<noteq> [])"

text \<open>
  The numeric value of an \<^verbatim>\<open>int\<close>, \<^verbatim>\<open>bool\<close> (a subclass of \<^verbatim>\<open>int\<close>) or
  \<^verbatim>\<open>float\<close>; \<open>None\<close> for every other value.
\<close>

fun num_val :: "pyval \<Rightarrow> rat option" where
  "num_val (PBool b) = Some (if b then 1 else 0)"
| "num_val (PInt i) = Some (of_int i)"
| "num_val (PFloat r) = Some r"
| "num_val PNone = None"
| "num_val (PStr s) = None"
| "num_val (PList xs) = None"
| "num_val (PDict d) = None"

text \<open>\<^verbatim>\<open>isinstance(v, (int, float))\<close> and \<^verbatim>\<open>isinstance(v, int)\<close>.\<close>

definition isinstance_int_float :: "pyval \<Rightarrow> bool" where
  "isinstance_int_float v = (num_val v \<noteq> None)"

fun isinstance_int :: "pyval \<Rightarrow> bool" where
  "isinstance_int (PInt i) = True"
| "isinstance_int (PBool b) = True"
| "isinstance_int v = False"

text \<open>\<^verbatim>\<open>v > n\<close> for an integer literal \<open>n\<close>, used behind an \<^verbatim>\<open>isinstance\<close> guard.\<close>

definition gt_literal :: "pyval \<Rightarrow> int \<Rightarrow> bool" where
  "gt_literal v n = (case num_val v of Some x \<Rightarrow> of_int n < x | None \<Rightarrow> False)"

text \<open>
  \<^verbatim>\<open>v < n\<close> for an integer literal \<open>n\<close> with no guard before it: comparing
  \<^verbatim>\<open>None\<close>, a string, a list or a dict with an \<^verbatim>\<open>int\<close> raises \<^verbatim>\<open>TypeError\<close>.
\<close>

definition lt_literal :: "pyval \<Rightarrow> int \<Rightarrow> py_exception + bool" where
  "lt_literal v n = (case num_val v of Some x \<Rightarrow> Inr (x < of_int n) | None \<Rightarrow> Inl TypeError)"

text \<open>\<^verbatim>\<open>n - v\<close> for an integer literal \<open>n\<close>.\<close>

fun literal_minus :: "int \<Rightarrow> pyval \<Rightarrow> py_exception + pyval" where
  "literal_minus n (PInt i) = Inr (PInt (n - i))"
| "literal_minus n (PBool b) = Inr (PInt (n - (if b then 1 else 0)))"
| "literal_minus n (PFloat r) = Inr (PFloat (of_int n - r))"
| "literal_minus n v = Inl TypeError"

text \<open>
  \<^verbatim>\<open>max(values)\<close> on a non-empty list of numbers: the running maximum is
  replaced only by a strictly greater item, so the first maximal item is returned.
\<close>

definition num_gt :: "pyval \<Rightarrow> pyval \<Rightarrow> bool" where
  "num_gt a b = (case (num_val a, num_val b) of (Some x, Some y) \<Rightarrow> y < x | _ \<Rightarrow> False)"

fun py_max_from :: "pyval \<Rightarrow> pyval list \<Rightarrow> pyval" where
  "py_max_from m [] = m"
| "py_max_from m (x # xs) = py_max_from (if num_gt x m then x else m) xs"

text \<open>\<^verbatim>\<open>max(strings, key=len)\<close> on a non-empty list: the first longest string.\<close>

fun max_len_from :: "string \<Rightarrow> string list \<Rightarrow> string" where
  "max_len_from m [] = m"
| "max_len_from m (x # xs) = max_len_from (if length m < length x then x else m) xs"

text \<open>
  \<^verbatim>\<open>str.strip()\<close>: whitespace is what \<^verbatim>\<open>str.isspace\<close> accepts; below code point
  256 these are 9 to 13, 28 to 32, 133 and 160.
\<close>

definition py_isspace :: "char \<Rightarrow> bool" where
  "py_isspace c = ((of_char c :: nat) \<in> {9, 10, 11, 12, 13, 28, 29, 30, 31, 32, 133, 160})"

definition py_strip :: "string \<Rightarrow> string" where
  "py_strip s = rev (dropWhile py_isspace (rev (dropWhile py_isspace s)))"

text \<open>
  \<^verbatim>\<open>list(set(items))\<close>. Building the set raises \<^verbatim>\<open>TypeError\<close> on an unhashable
  item (a list or a dict). Items that compare equal (numbers by value, everything
  else by content) are kept once, the first one inserted. Python leaves the
  iteration order of a set unspecified; the model lists the items in insertion
  order, and no statement below depends on that order.
\<close>

fun hashable :: "pyval \<Rightarrow> bool" where
  "hashable (PList xs) = False"
| "hashable (PDict d) = False"
| "hashable v = True"

definition py_eq :: "pyval \<Rightarrow> pyval \<Rightarrow> bool" where
  "py_eq a b = (case (num_val a, num_val b) of
                  (Some x, Some y) \<Rightarrow> x = y
                | (None, None) \<Rightarrow> a = b
                | _ \<Rightarrow> False)"

fun set_add_all :: "pyval list \<Rightarrow> pyval list \<Rightarrow> pyval list" where
  "set_add_all seen [] = seen"
| "set_add_all seen (x # xs) =
     set_add_all (if list_ex (py_eq x) seen then seen else seen @ [x]) xs"

definition list_of_set :: "pyval list \<Rightarrow> py_exception + pyval list" where
  "list_of_set items =
     (if list_all hashable items then Inr (set_add_all [] items) else Inl TypeError)"

section \<open>The merge engine: \<^verbatim>\<open>CompanyDataAggregator._merge_data_sources\<close>\<close>

type_synonym data_sources = "(string \<times> pydict) list"

definition source_priority :: "string list" where
  "source_priority = [''crunchbase'', ''linkedin'', ''web_search'', ''simple_web'']"

text \<open>
  Every block of the method starts with the same scan,
  \<^verbatim>\<open>for source in source_priority: if source in data_sources and field in data_sources[source]\<close>,
  which visits the values reported under \<open>field\<close> in priority order.
\<close>

definition reported :: "data_sources \<Rightarrow> string \<Rightarrow> pyval list" where
  "reported data_sources field =
     concat (map (\<lambda>source.
        case map_of data_sources source of
          None \<Rightarrow> []
        | Some d \<Rightarrow> (case map_of d field of None \<Rightarrow> [] | Some v \<Rightarrow> [v]))
      source_priority)"

text \<open>
  Numeric fields: the values with
  \<^verbatim>\<open>value and isinstance(value, (int, float)) and value > 0\<close> are collected and, if
  there is any, their \<^verbatim>\<open>max\<close> is stored.
\<close>

definition numeric_values :: "data_sources \<Rightarrow> string \<Rightarrow> pyval list" where
  "numeric_values data_sources field =
     filter (\<lambda>value. py_truthy value \<and> isinstance_int_float value \<and> gt_literal value 0)
       (reported data_sources field)"

definition merge_numeric :: "string \<Rightarrow> data_sources \<Rightarrow> pydict \<Rightarrow> pydict" where
  "merge_numeric field data_sources merged =
     (case numeric_values data_sources field of
        [] \<Rightarrow> merged
      | v # vs \<Rightarrow> AList.update field (py_max_from v vs) merged)"

text \<open>
  List fields: \<^verbatim>\<open>if founders and isinstance(founders, list): all_founders.extend(founders)\<close>.
\<close>

fun list_items :: "pyval \<Rightarrow> pyval list" where
  "list_items (PList xs) = xs"
| "list_items v = []"

definition all_items :: "data_sources \<Rightarrow> string \<Rightarrow> pyval list" where
  "all_items data_sources field = concat (map list_items (reported data_sources field))"

text \<open>
  Founders and investors:
  \<^verbatim>\<open>if all_founders: merged['founders'] = list(set([f for f in all_founders if f]))\<close>.
\<close>

definition merge_names :: "string \<Rightarrow> data_sources \<Rightarrow> pydict \<Rightarrow> py_exception + pydict" where
  "merge_names field data_sources merged =
     (let all_names = all_items data_sources field in
      if all_names = [] then Inr merged
      else (case list_of_set (filter py_truthy all_names) of
              Inl e \<Rightarrow> Inl e
            | Inr names \<Rightarrow> Inr (AList.update field (PList names) merged)))"

text \<open>
  CEO and location: the first value with
  \<^verbatim>\<open>ceo and isinstance(ceo, str) and ceo.strip()\<close> is stored stripped.
\<close>

fun nonblank_str :: "pyval \<Rightarrow> bool" where
  "nonblank_str (PStr s) = (s \<noteq> [] \<and> py_strip s \<noteq> [])"
| "nonblank_str v = False"

fun stripped :: "pyval \<Rightarrow> string" where
  "stripped (PStr s) = py_strip s"
| "stripped v = []"

definition merge_first_text :: "string \<Rightarrow> data_sources \<Rightarrow> pydict \<Rightarrow> pydict" where
  "merge_first_text field data_sources merged =
     (case find nonblank_str (reported data_sources field) of
        None \<Rightarrow> merged
      | Some v \<Rightarrow> AList.update field (PStr (stripped v)) merged)"

text \<open>
  Founded year: the first value with
  \<^verbatim>\<open>year and isinstance(year, int) and year > 1900\<close>.
\<close>

definition merge_founded_year :: "data_sources \<Rightarrow> pydict \<Rightarrow> pydict" where
  "merge_founded_year data_sources merged =
     (case find (\<lambda>year. py_truthy year \<and> isinstance_int year \<and> gt_literal year 1900)
             (reported data_sources ''founded_year'') of
        None \<Rightarrow> merged
      | Some year \<Rightarrow> AList.update ''founded_year'' year merged)"

text \<open>Description: the stripped non-blank strings; the longest is stored.\<close>

definition merge_description :: "data_sources \<Rightarrow> pydict \<Rightarrow> pydict" where
  "merge_description data_sources merged =
     (case map stripped (filter nonblank_str (reported data_sources ''description'')) of
        [] \<Rightarrow> merged
      | d # ds \<Rightarrow> AList.update ''description'' (PStr (max_len_from d ds)) merged)"

text \<open>
  Website: the first value with
  \<^verbatim>\<open>website and isinstance(website, str) and website.strip() and website.startswith('http')\<close>.
\<close>

fun valid_website :: "pyval \<Rightarrow> bool" where
  "valid_website (PStr s) = (s \<noteq> [] \<and> py_strip s \<noteq> [] \<and> take 4 s = ''http'')"
| "valid_website v = False"

definition merge_website :: "data_sources \<Rightarrow> pydict \<Rightarrow> pydict" where
  "merge_website data_sources merged =
     (case find valid_website (reported data_sources ''website'') of
        None \<Rightarrow> merged
      | Some v \<Rightarrow> AList.update ''website'' (PStr (stripped v)) merged)"

text \<open>
  Funding rounds. The key of a round is the f-string
  \<^verbatim>\<open>f"{round_data.get('amount', '')}-{round_data.get('type', '')}"\<close>. The text that
  Python's built-in formatting gives a value is a parameter \<open>fmt\<close> of the model.
\<close>

definition dict_get :: "pydict \<Rightarrow> string \<Rightarrow> pyval \<Rightarrow> pyval" where
  "dict_get d k dflt = (case map_of d k of None \<Rightarrow> dflt | Some v \<Rightarrow> v)"

definition round_key :: "(pyval \<Rightarrow> string) \<Rightarrow> pydict \<Rightarrow> string" where
  "round_key fmt round_data =
     fmt (dict_get round_data ''amount'' (PStr '''')) @ ''-'' @
     fmt (dict_get round_data ''type'' (PStr ''''))"

fun unique_rounds_loop ::
  "(pyval \<Rightarrow> string) \<Rightarrow> pyval list \<Rightarrow> pyval list \<Rightarrow> string set \<Rightarrow> pyval list" where
  "unique_rounds_loop fmt [] unique_rounds seen_rounds = unique_rounds"
| "unique_rounds_loop fmt (PDict round_data # rest) unique_rounds seen_rounds =
     (if round_key fmt round_data \<notin> seen_rounds
      then unique_rounds_loop fmt rest (unique_rounds @ [PDict round_data])
             (insert (round_key fmt round_data) seen_rounds)
      else unique_rounds_loop fmt rest unique_rounds seen_rounds)"
| "unique_rounds_loop fmt (other # rest) unique_rounds seen_rounds =
     unique_rounds_loop fmt rest unique_rounds seen_rounds"

definition merge_funding_rounds :: "(pyval \<Rightarrow> string) \<Rightarrow> data_sources \<Rightarrow> pydict \<Rightarrow> pydict" where
  "merge_funding_rounds fmt data_sources merged =
     (let all_rounds = all_items data_sources ''funding_rounds'' in
      if all_rounds = [] then merged
      else AList.update ''funding_rounds''
             (PList (unique_rounds_loop fmt all_rounds [] {})) merged)"

section \<open>Derived metrics: \<^verbatim>\<open>_calculate_derived_metrics\<close>\<close>

definition current_year :: int where
  "current_year = 2024"

definition derive_company_age :: "pydict \<Rightarrow> py_exception + pydict" where
  "derive_company_age data =
     (if py_truthy (dict_get data ''founded_year'' PNone)
      then (case literal_minus current_year (dict_get data ''founded_year'' PNone) of
              Inl e \<Rightarrow> Inl e
            | Inr age \<Rightarrow> Inr (AList.update ''company_age'' age data))
      else Inr data)"

text \<open>
  An \<^verbatim>\<open>if/elif\<close> chain of \<^verbatim>\<open>value < bound\<close> tests with a final \<^verbatim>\<open>else\<close>; the first
  comparison already raises when the value is not a number.
\<close>

fun bucket :: "pyval \<Rightarrow> (int \<times> string) list \<Rightarrow> string \<Rightarrow> py_exception + string" where
  "bucket v [] otherwise = Inr otherwise"
| "bucket v ((bound, label) # rest) otherwise =
     (case lt_literal v bound of
        Inl e \<Rightarrow> Inl e
      | Inr True \<Rightarrow> Inr label
      | Inr False \<Rightarrow> bucket v rest otherwise)"

definition derive_funding_stage :: "pydict \<Rightarrow> py_exception + pydict" where
  "derive_funding_stage data =
     (if py_truthy (dict_get data ''funding_raised'' PNone)
      then (case bucket (dict_get data ''funding_raised'' PNone)
                   [(1000000, ''Pre-Seed''), (5000000, ''Seed''), (20000000, ''Series A''),
                    (50000000, ''Series B''), (100000000, ''Series C+'')] ''Late Stage'' of
              Inl e \<Rightarrow> Inl e
            | Inr stage \<Rightarrow> Inr (AList.update ''funding_stage'' (PStr stage) data))
      else Inr data)"

definition derive_employee_size :: "pydict \<Rightarrow> py_exception + pydict" where
  "derive_employee_size data =
     (if py_truthy (dict_get data ''employees'' PNone)
      then (case bucket (dict_get data ''employees'' PNone)
                   [(10, ''Startup (1-9)''), (50, ''Small (10-49)''), (200, ''Medium (50-199)''),
                    (1000, ''Large (200-999)'')] ''Enterprise (1000+)'' of
              Inl e \<Rightarrow> Inl e
            | Inr label \<Rightarrow> Inr (AList.update ''employee_size'' (PStr label) data))
      else Inr data)"

definition calculate_derived_metrics :: "pydict \<Rightarrow> py_exception + pydict" where
  "calculate_derived_metrics data =
     (case derive_company_age data of
        Inl e \<Rightarrow> Inl e
      | Inr data1 \<Rightarrow>
          (case derive_funding_stage data1 of
             Inl e \<Rightarrow> Inl e
           | Inr data2 \<Rightarrow> derive_employee_size data2))"

text \<open>The blocks of \<^verbatim>\<open>_merge_data_sources\<close> in the order of the source.\<close>

definition merge_scalars :: "(pyval \<Rightarrow> string) \<Rightarrow> data_sources \<Rightarrow> pydict \<Rightarrow> pydict" where
  "merge_scalars fmt data_sources merged =
     merge_funding_rounds fmt data_sources
       (merge_first_text ''location'' data_sources
         (merge_website data_sources
           (merge_description data_sources
             (merge_founded_year data_sources
               (merge_first_text ''ceo'' data_sources merged)))))"

definition merge_numbers :: "data_sources \<Rightarrow> pydict \<Rightarrow> pydict" where
  "merge_numbers data_sources merged =
     merge_numeric ''revenue'' data_sources
       (merge_numeric ''employees'' data_sources
         (merge_numeric ''valuation'' data_sources
           (merge_numeric ''funding_raised'' data_sources merged)))"

definition merge_data_sources ::
  "(pyval \<Rightarrow> string) \<Rightarrow> data_sources \<Rightarrow> string \<Rightarrow> py_exception + pydict" where
  "merge_data_sources fmt data_sources company_name =
     (case merge_names ''founders'' data_sources
             (merge_numbers data_sources [(''name'', PStr company_name)]) of
        Inl e \<Rightarrow> Inl e
      | Inr merged1 \<Rightarrow>
          (case merge_names ''investors'' data_sources merged1 of
             Inl e \<Rightarrow> Inl e
           | Inr merged2 \<Rightarrow>
               calculate_derived_metrics (merge_scalars fmt data_sources merged2)))"
section \<open>The aggregator: \<^verbatim>\<open>CompanyDataAggregator.get_comprehensive_data\<close>\<close>

text \<open>
  A scraper is modelled by the one method the loop calls on it
  (\<^verbatim>\<open>search_company_data\<close> for \<^verbatim>\<open>web_search\<close> and \<^verbatim>\<open>simple_web\<close>,
  \<^verbatim>\<open>scrape_company_data\<close> otherwise). Given the company name it returns a
  dictionary (\<open>Returns\<close>), raises an exception derived from \<^verbatim>\<open>Exception\<close>
  (\<open>Raises\<close>, with the message \<^verbatim>\<open>str(e)\<close>), or raises one outside that hierarchy,
  such as \<^verbatim>\<open>SystemExit\<close> or \<^verbatim>\<open>KeyboardInterrupt\<close> (\<open>Aborts\<close>), which
  \<^verbatim>\<open>except Exception\<close> does not catch.
  The dictionary \<^verbatim>\<open>self.scrapers\<close> is an association list in registration order;
  the constructor registers \<^verbatim>\<open>crunchbase\<close>, \<^verbatim>\<open>linkedin\<close>, \<^verbatim>\<open>web_search\<close> and
  \<^verbatim>\<open>simple_web\<close>. The optional progress callback returns \<open>None\<close> when it
  returns normally and the message of the exception when it raises one derived from
  \<^verbatim>\<open>Exception\<close>. The state of the loop records, besides \<^verbatim>\<open>all_data\<close> and
  \<^verbatim>\<open>successful_sources\<close>, every invocation of a scraper (source name and
  argument), which is what a call-count spy on the collectors observes, and the
  exception that left the loop, if any. Logging and \<^verbatim>\<open>time.sleep\<close> are left out.
\<close>

datatype outcome = Raises string | Returns pydict | Aborts string

type_synonym scraper = "string \<Rightarrow> outcome"

type_synonym progress_callback = "string \<Rightarrow> rat \<Rightarrow> string option"

record run_state =
  all_data :: data_sources
  successful_sources :: nat
  calls :: "(string \<times> string) list"
  aborted :: "string option"

text \<open>
  One iteration of the loop. Everything in it is inside
  \<^verbatim>\<open>try: ... except Exception as e: all_data[source_name] = {"error": str(e)}\<close>, so a
  callback that raises skips the scraper; an exception of the scraper that the
  clause does not catch leaves the loop and the method.
\<close>

definition announce :: "progress_callback option \<Rightarrow> string \<Rightarrow> nat \<Rightarrow> nat \<Rightarrow> string option" where
  "announce progress_callback source_name i total_sources =
     (case progress_callback of
        None \<Rightarrow> None
      | Some callback \<Rightarrow>
          callback (''Scraping '' @ source_name @ ''...'') (of_nat (i + 1) / of_nat total_sources))"

definition scrape_source ::
  "progress_callback option \<Rightarrow> string \<Rightarrow> nat \<Rightarrow> nat \<Rightarrow> string \<Rightarrow> scraper \<Rightarrow>
   run_state \<Rightarrow> run_state" where
  "scrape_source progress_callback company_name total_sources i source_name scraper st =
     (case announce progress_callback source_name i total_sources of
        Some e \<Rightarrow>
          st\<lparr>all_data := AList.update source_name [(''error'', PStr e)] (all_data st)\<rparr>
      | None \<Rightarrow>
          (case scraper company_name of
             Raises e \<Rightarrow>
               st\<lparr>all_data := AList.update source_name [(''error'', PStr e)] (all_data st),
                  calls := calls st @ [(source_name, company_name)]\<rparr>
           | Aborts e \<Rightarrow>
               st\<lparr>calls := calls st @ [(source_name, company_name)], aborted := Some e\<rparr>
           | Returns data \<Rightarrow>
               if data \<noteq> [] \<and> map_of data ''error'' = None
               then st\<lparr>all_data := AList.update source_name data (all_data st),
                       successful_sources := successful_sources st + 1,
                       calls := calls st @ [(source_name, company_name)]\<rparr>
               else st\<lparr>all_data := AList.update source_name
                         [(''error'', dict_get data ''error'' (PStr ''No data found''))]
                         (all_data st),
                       calls := calls st @ [(source_name, company_name)]\<rparr>))"

fun scrape_all ::
  "progress_callback option \<Rightarrow> string \<Rightarrow> nat \<Rightarrow> nat \<Rightarrow> (string \<times> scraper) list \<Rightarrow>
   run_state \<Rightarrow> run_state" where
  "scrape_all progress_callback company_name total_sources i [] st = st"
| "scrape_all progress_callback company_name total_sources i ((source_name, scraper) # rest) st =
     (let st1 = scrape_source progress_callback company_name total_sources i source_name scraper st
      in if aborted st1 = None
         then scrape_all progress_callback company_name total_sources (i + 1) rest st1
         else st1)"

text \<open>
  The whole call: the invocations made and the record returned, or the exception
  that escapes: one that left the loop, or one of the merge, which runs outside the
  \<^verbatim>\<open>try\<close>. \<open>now\<close> is the value of \<^verbatim>\<open>time.time()\<close>.
\<close>

definition metadata :: "rat \<Rightarrow> nat \<Rightarrow> run_state \<Rightarrow> pyval" where
  "metadata now total_sources st =
     PDict [(''successful_sources'', PInt (int (successful_sources st))),
            (''total_sources'', PInt (int total_sources)),
            (''scraped_sources'', PList (map (\<lambda>entry. PStr (fst entry)) (all_data st))),
            (''timestamp'', PFloat now)]"

datatype escaped = Left_loop string | Merge_raised py_exception

definition get_comprehensive_data ::
  "(pyval \<Rightarrow> string) \<Rightarrow> rat \<Rightarrow> (string \<times> scraper) list \<Rightarrow> string \<Rightarrow>
   progress_callback option \<Rightarrow> (string \<times> string) list \<times> (escaped + pydict)" where
  "get_comprehensive_data fmt now scrapers company_name progress_callback =
     (let total_sources = length scrapers;
          st = scrape_all progress_callback company_name total_sources 0 scrapers
                 \<lparr>all_data = [], successful_sources = 0, calls = [], aborted = None\<rparr>
      in (calls st,
          case aborted st of
            Some e \<Rightarrow> Inl (Left_loop e)
          | None \<Rightarrow>
              (case merge_data_sources fmt (all_data st) company_name of
                 Inl e \<Rightarrow> Inl (Merge_raised e)
               | Inr merged_data \<Rightarrow>
                   Inr (AList.update ''metadata'' (metadata now total_sources st) merged_data))))"

section \<open>The field extractor: funding amounts\<close>

text \<open>
  \<^verbatim>\<open>SimpleWebScraper._extract_funding_amounts\<close> and \<^verbatim>\<open>_parse_funding_amount\<close>
  (the same text as \<^verbatim>\<open>SeleniumCompanyScraper.parse_funding_amount\<close>) work with
  regular expressions. The expressions of the source use character classes,
  concatenation, alternation, an optional character and greedy repetition of a
  character class; \<open>rmatch\<close> is a backtracking matcher for these, giving the
  remainders of the text after each possible match at its start, in the order in
  which a backtracking engine tries them (greedy first).
\<close>

datatype regex =
    Eps
  | Lit "char \<Rightarrow> bool"
  | Seq regex regex
  | Alt regex regex
  | Opt regex
  | Star "char \<Rightarrow> bool"
  | Plus "char \<Rightarrow> bool"

fun star :: "(char \<Rightarrow> bool) \<Rightarrow> string \<Rightarrow> string list" where
  "star p [] = [[]]"
| "star p (c # cs) = (if p c then star p cs @ [c # cs] else [c # cs])"

fun rmatch :: "regex \<Rightarrow> string \<Rightarrow> string list" where
  "rmatch Eps s = [s]"
| "rmatch (Lit p) [] = []"
| "rmatch (Lit p) (c # cs) = (if p c then [cs] else [])"
| "rmatch (Seq a b) s = concat (map (rmatch b) (rmatch a s))"
| "rmatch (Alt a b) s = rmatch a s @ rmatch b s"
| "rmatch (Opt a) s = rmatch a s @ [s]"
| "rmatch (Star p) s = star p s"
| "rmatch (Plus p) [] = []"
| "rmatch (Plus p) (c # cs) = (if p c then star p cs else [])"

text \<open>
  \<^verbatim>\<open>re.search\<close>: the text of the first match at the leftmost position that has
  one. \<^verbatim>\<open>re.findall\<close> for an expression without groups: the texts of the
  non-overlapping matches from left to right; \<open>skip\<close> counts the characters of
  the last match still to be passed over.
\<close>

fun re_search :: "regex \<Rightarrow> string \<Rightarrow> string option" where
  "re_search r [] = (case rmatch r [] of [] \<Rightarrow> None | rest # others \<Rightarrow> Some [])"
| "re_search r (c # cs) =
     (case rmatch r (c # cs) of
        [] \<Rightarrow> re_search r cs
      | rest # others \<Rightarrow> Some (take (length (c # cs) - length rest) (c # cs)))"

fun re_findall :: "regex \<Rightarrow> nat \<Rightarrow> string \<Rightarrow> string list" where
  "re_findall r skip [] = []"
| "re_findall r skip (c # cs) =
     (if 0 < skip then re_findall r (skip - 1) cs
      else (case rmatch r (c # cs) of
              [] \<Rightarrow> re_findall r 0 cs
            | rest # others \<Rightarrow>
                take (length (c # cs) - length rest) (c # cs) #
                re_findall r (length (c # cs) - length rest - 1) cs))"

text \<open>
  Character classes on code points below 256: \<^verbatim>\<open>\d\<close> is \<^verbatim>\<open>0-9\<close>, \<^verbatim>\<open>\s\<close> is what
  \<^verbatim>\<open>str.isspace\<close> accepts, and under \<^verbatim>\<open>re.IGNORECASE\<close> a letter of the expression
  matches its two cases.
\<close>

definition is_digit :: "char \<Rightarrow> bool" where
  "is_digit c = (48 \<le> (of_char c :: nat) \<and> (of_char c :: nat) \<le> 57)"

definition ascii_upper :: "char \<Rightarrow> char" where
  "ascii_upper c =
     (if 97 \<le> (of_char c :: nat) \<and> (of_char c :: nat) \<le> 122 then char_of (of_char c - 32 :: nat)
      else c)"

definition chr :: "char \<Rightarrow> regex" where
  "chr l = Lit (\<lambda>c. c = l)"

definition letter :: "char \<Rightarrow> regex" where
  "letter l = Lit (\<lambda>c. ascii_upper c = ascii_upper l)"

definition word :: "string \<Rightarrow> regex" where
  "word w = foldr (\<lambda>l r. Seq (letter l) r) w Eps"

definition seq :: "regex list \<Rightarrow> regex" where
  "seq rs = foldr Seq rs Eps"

text \<open>
  \<^verbatim>\<open>\$[\d,]+\.?\d*\s*(?:million|billion|M|B)\<close>, the tail of all four expressions of
  \<^verbatim>\<open>_extract_funding_amounts\<close>, and the expressions themselves.
\<close>

definition dollar_amount :: regex where
  "dollar_amount =
     seq [chr (CHR ''$''), Plus (\<lambda>c. is_digit c \<or> c = CHR '',''), Opt (chr (CHR ''.'')),
          Star is_digit, Star py_isspace,
          Alt (word ''million'') (Alt (word ''billion'') (Alt (word ''M'') (word ''B'')))]"

definition funding_patterns :: "regex list" where
  "funding_patterns =
     [dollar_amount,
      seq [word ''raised'', Plus py_isspace, dollar_amount],
      seq [word ''funding'', Plus py_isspace, word ''of'', Plus py_isspace, dollar_amount],
      seq [word ''valuation'', Plus py_isspace, word ''of'', Plus py_isspace, dollar_amount]]"

text \<open>
  \<^verbatim>\<open>float(s)\<close> for the strings the caller passes, which consist of digits and
  points: it raises \<^verbatim>\<open>ValueError\<close> unless the string is digits with at most one
  point and at least one digit. The result is the exact decimal value; the
  rounding to a binary float is not modelled.
\<close>

fun digits_value :: "string \<Rightarrow> nat" where
  "digits_value [] = 0"
| "digits_value (c # cs) = (of_char c - 48) * 10 ^ length cs + digits_value cs"

definition py_float :: "string \<Rightarrow> py_exception + rat" where
  "py_float s =
     (let int_part = takeWhile is_digit s;
          rest = dropWhile is_digit s;
          frac_part = drop 1 rest
      in if (rest = [] \<or> take 1 rest = ''.'' \<and> list_all is_digit frac_part) \<and>
            (int_part \<noteq> [] \<or> frac_part \<noteq> [])
         then Inr (of_nat (digits_value int_part) +
                   of_nat (digits_value frac_part) / 10 ^ length frac_part)
         else Inl ValueError)"

text \<open>
  \<^verbatim>\<open>_parse_funding_amount\<close>. \<^verbatim>\<open>re.sub(r'[^\d.,$MBK]', '', text.upper())\<close> keeps the
  digits, the point, the comma, the dollar sign and the upper-cased letters M, B
  and K (no character above code point 127 upper-cases to one of these).
\<close>

definition kept :: "char \<Rightarrow> bool" where
  "kept c = (is_digit c \<or> c \<in> set ''.,$MBK'')"

definition parse_funding_amount :: "string \<Rightarrow> py_exception + rat option" where
  "parse_funding_amount text =
     (if text = [] then Inr None
      else
        (let text = filter kept (map ascii_upper text) in
         case re_search (seq [Plus (\<lambda>c. is_digit c \<or> c = CHR '',''), Opt (chr (CHR ''.'')),
                              Star is_digit]) text of
           None \<Rightarrow> Inr None
         | Some amount_match \<Rightarrow>
             (case py_float (filter (\<lambda>c. c \<noteq> CHR '','') amount_match) of
                Inl e \<Rightarrow> Inl e
              | Inr amount \<Rightarrow>
                  Inr (Some (if CHR ''B'' \<in> set text then amount * 1000000000
                             else if CHR ''M'' \<in> set text then amount * 1000000
                             else if CHR ''K'' \<in> set text then amount * 1000
                             else amount)))))"

text \<open>
  \<^verbatim>\<open>_extract_funding_amounts\<close>: every match of every expression is parsed, and the
  amounts that are truthy are collected. Nothing catches an exception of the
  parser, so the first one ends the call.
\<close>

fun collect_amounts :: "string list \<Rightarrow> rat list \<Rightarrow> py_exception + rat list" where
  "collect_amounts [] amounts = Inr amounts"
| "collect_amounts (m # matches) amounts =
     (case parse_funding_amount m of
        Inl e \<Rightarrow> Inl e
      | Inr None \<Rightarrow> collect_amounts matches amounts
      | Inr (Some amount) \<Rightarrow>
          collect_amounts matches (if amount \<noteq> 0 then amounts @ [amount] else amounts))"

definition extract_funding_amounts :: "string \<Rightarrow> py_exception + rat list" where
  "extract_funding_amounts text =
     collect_amounts (concat (map (\<lambda>pattern. re_findall pattern 0 text) funding_patterns)) []"

section \<open>Notions used to state the properties\<close>

definition positive_values :: "data_sources \<Rightarrow> string \<Rightarrow> pyval set" where
  "positive_values data_sources field =
     {v. \<exists>source d x. source \<in> set source_priority \<and> map_of data_sources source = Some d \<and>
            map_of d field = Some v \<and> num_val v = Some x \<and> 0 < x}"

definition derived_fields :: "string list" where
  "derived_fields = [''company_age'', ''funding_stage'', ''employee_size'']"

definition numeric_fields :: "string list" where
  "numeric_fields = [''funding_raised'', ''valuation'', ''employees'', ''revenue'']"

definition merged_fields :: "string list" where
  "merged_fields =
     [''name'', ''funding_raised'', ''valuation'', ''employees'', ''revenue'', ''founders'',
      ''investors'', ''ceo'', ''founded_year'', ''description'', ''website'', ''location'',
      ''funding_rounds''] @ derived_fields"

text \<open>A mapping with one errored source and a source that reports a market capitalisation.\<close>

definition with_error :: data_sources where
  "with_error =
     [(''crunchbase'', [(''funding_raised'', PInt 2000000), (''market_cap'', PInt 9000000)]),
      (''linkedin'', [(''funding_raised'', PInt 6000000), (''employees'', PInt 40)]),
      (''web_search'', [(''error'', PStr ''timed out'')])]"

definition dict_keys :: "pydict \<Rightarrow> string set" where
  "dict_keys d = fst ` set d"

text \<open>
  A funding-round entry and its deduplication key, the f-string of the source with
  the defaults of \<^verbatim>\<open>round_data.get\<close>.
\<close>

fun is_dict :: "pyval \<Rightarrow> bool" where
  "is_dict (PDict d) = True"
| "is_dict v = False"

fun entry_key :: "(pyval \<Rightarrow> string) \<Rightarrow> pyval \<Rightarrow> string" where
  "entry_key fmt (PDict d) = round_key fmt d"
| "entry_key fmt v = []"


definition undated_round :: data_sources where
  "undated_round =
     [(''linkedin'', [(''funding_rounds'', PList [PDict [(''date'', PStr ''2021'')]])])]"

definition same_round_twice :: data_sources where
  "same_round_twice =
     [(''crunchbase'', [(''funding_rounds'',
         PList [PDict [(''amount'', PInt 5000000), (''type'', PStr ''Seed'')]])]),
      (''web_search'', [(''funding_rounds'',
         PList [PDict [(''amount'', PInt 5000000), (''type'', PStr ''Seed'')],
                PStr ''Series A'',
                PDict [(''amount'', PInt 20000000), (''type'', PStr ''Series A'')]])])]"

text \<open>The same round reported with an integer amount and with a float amount.\<close>

definition int_and_float_amount :: data_sources where
  "int_and_float_amount =
     [(''crunchbase'', [(''funding_rounds'',
         PList [PDict [(''amount'', PInt 5000000), (''type'', PStr ''Seed'')]])]),
      (''linkedin'', [(''funding_rounds'',
         PList [PDict [(''amount'', PFloat 5000000), (''type'', PStr ''Seed'')]])])]"

section \<open>Concrete inputs\<close>

text \<open>
  The statements about the merge hold for every formatting function \<open>fmt\<close>. The
  concrete evaluations below instantiate it with \<open>py_str\<close>, which is Python's
  \<^verbatim>\<open>str\<close> on \<^verbatim>\<open>None\<close>, booleans, integers and strings. The text Python gives a
  float depends on its binary representation and the text of a list or dict on
  the \<^verbatim>\<open>repr\<close> of its items; both are outside this model, \<open>py_str\<close> gives them
  placeholder texts, and the evaluations below format strings and integers only.
\<close>

definition digit_char :: "nat \<Rightarrow> char" where
  "digit_char d = char_of (48 + d)"

fun decimal :: "nat \<Rightarrow> string" where
  "decimal n = (if n < 10 then [digit_char n] else decimal (n div 10) @ [digit_char (n mod 10)])"

declare decimal.simps [simp del]

fun py_str :: "pyval \<Rightarrow> string" where
  "py_str PNone = ''None''"
| "py_str (PBool b) = (if b then ''True'' else ''False'')"
| "py_str (PInt i) = (if i < 0 then ''-'' @ decimal (nat (- i)) else decimal (nat i))"
| "py_str (PStr s) = s"
| "py_str (PFloat r) = ''<float>''"
| "py_str (PList xs) = ''<list>''"
| "py_str (PDict d) = ''<dict>''"

text \<open>Two sources report different funding totals; one of them a head count.\<close>

definition two_totals :: data_sources where
  "two_totals =
     [(''crunchbase'', [(''funding_raised'', PInt 2000000)]),
      (''linkedin'', [(''funding_raised'', PInt 6000000), (''employees'', PInt 40)])]"

text \<open>One source reports a funding total of exactly five million and a founding year.\<close>

definition five_million :: data_sources where
  "five_million =
     [(''crunchbase'', [(''funding_raised'', PInt 5000000), (''founded_year'', PInt 2015)])]"


definition sample_scrapers :: "(string \<times> scraper) list" where
  "sample_scrapers =
     [(''crunchbase'', \<lambda>company_name. Returns [(''funding_raised'', PInt 2000000)]),
      (''linkedin'', \<lambda>company_name.
          Returns [(''error'', PStr ''No LinkedIn company page found for this company'')]),
      (''web_search'', \<lambda>company_name. Raises ''timed out''),
      (''simple_web'', \<lambda>company_name. Returns [(''name'', PStr company_name)])]"


section \<open>Properties of the merge engine\<close>

lemma map_of_update_other: "k \<noteq> f \<Longrightarrow> map_of (AList.update f v m) k = map_of m k"
  by (simp add: update_conv')

lemma set_reported:
  "set (reported ds field) =
     {v. \<exists>source d. source \<in> set source_priority \<and> map_of ds source = Some d \<and> map_of d field = Some v}"
  by (auto simp: reported_def split: option.splits) metis

lemma positive_truthy: "num_val v = Some x \<Longrightarrow> 0 < x \<Longrightarrow> py_truthy v"
  by (cases v) (auto split: if_splits)

lemma set_numeric_values: "set (numeric_values ds field) = positive_values ds field"
  unfolding numeric_values_def positive_values_def set_filter set_reported
  by (auto simp: isinstance_int_float_def gt_literal_def positive_truthy split: option.splits)

lemma py_max_from_mem: "py_max_from m xs \<in> set (m # xs)"
  by (induction xs arbitrary: m) auto

lemma py_max_from_upper:
  assumes "num_val m = Some a" and "\<forall>v \<in> set xs. num_val v \<noteq> None"
  shows "\<exists>b. num_val (py_max_from m xs) = Some b \<and> a \<le> b \<and>
             (\<forall>v \<in> set xs. \<exists>y. num_val v = Some y \<and> y \<le> b)"
  using assms
proof (induction xs arbitrary: m a)
  case Nil
  then show ?case by simp
next
  case (Cons x xs)
  from Cons.prems obtain c where c: "num_val x = Some c" by auto
  show ?case
  proof (cases "a < c")
    case True
    then have step: "py_max_from m (x # xs) = py_max_from x xs"
      using Cons.prems c by (simp add: num_gt_def)
    from Cons.IH [OF c] Cons.prems obtain b where
      "num_val (py_max_from x xs) = Some b" "c \<le> b" "\<forall>v \<in> set xs. \<exists>y. num_val v = Some y \<and> y \<le> b"
      by auto
    with True c step show ?thesis by auto
  next
    case False
    then have step: "py_max_from m (x # xs) = py_max_from m xs"
      using Cons.prems c by (simp add: num_gt_def)
    from Cons.IH [OF Cons.prems(1)] Cons.prems obtain b where
      "num_val (py_max_from m xs) = Some b" "a \<le> b" "\<forall>v \<in> set xs. \<exists>y. num_val v = Some y \<and> y \<le> b"
      by auto
    with False c step show ?thesis by auto
  qed
qed

lemma map_of_merge_numeric:
  "map_of (merge_numeric f ds m) k =
     (if k = f then (case numeric_values ds f of [] \<Rightarrow> map_of m k | v # vs \<Rightarrow> Some (py_max_from v vs))
      else map_of m k)"
  by (simp add: merge_numeric_def update_conv' split: list.splits)

lemma map_of_merge_first_text: "k \<noteq> f \<Longrightarrow> map_of (merge_first_text f ds m) k = map_of m k"
  by (simp add: merge_first_text_def update_conv' split: option.splits)

lemma map_of_merge_founded_year:
  "k \<noteq> ''founded_year'' \<Longrightarrow> map_of (merge_founded_year ds m) k = map_of m k"
  by (simp add: merge_founded_year_def update_conv' split: option.splits)

lemma map_of_merge_description:
  "k \<noteq> ''description'' \<Longrightarrow> map_of (merge_description ds m) k = map_of m k"
  by (simp add: merge_description_def update_conv' split: list.splits)

lemma map_of_merge_website:
  "k \<noteq> ''website'' \<Longrightarrow> map_of (merge_website ds m) k = map_of m k"
  by (simp add: merge_website_def update_conv' split: option.splits)

lemma map_of_merge_funding_rounds:
  "k \<noteq> ''funding_rounds'' \<Longrightarrow> map_of (merge_funding_rounds fmt ds m) k = map_of m k"
  by (simp add: merge_funding_rounds_def update_conv' Let_def)

lemma map_of_merge_names:
  "merge_names f ds m = Inr m' \<Longrightarrow> k \<noteq> f \<Longrightarrow> map_of m' k = map_of m k"
  by (auto simp: merge_names_def update_conv' Let_def split: if_splits sum.splits)

lemma map_of_derive_company_age:
  "derive_company_age d = Inr d' \<Longrightarrow> k \<noteq> ''company_age'' \<Longrightarrow> map_of d' k = map_of d k"
  by (auto simp: derive_company_age_def update_conv' split: if_splits sum.splits)

lemma map_of_derive_funding_stage:
  "derive_funding_stage d = Inr d' \<Longrightarrow> k \<noteq> ''funding_stage'' \<Longrightarrow> map_of d' k = map_of d k"
  by (auto simp: derive_funding_stage_def update_conv' split: if_splits sum.splits)

lemma map_of_derive_employee_size:
  "derive_employee_size d = Inr d' \<Longrightarrow> k \<noteq> ''employee_size'' \<Longrightarrow> map_of d' k = map_of d k"
  by (auto simp: derive_employee_size_def update_conv' split: if_splits sum.splits)

lemma map_of_calculate_derived_metrics:
  assumes "calculate_derived_metrics d = Inr d'" and "k \<notin> set derived_fields"
  shows "map_of d' k = map_of d k"
proof -
  from assms(1) obtain d1 d2 where
    s: "derive_company_age d = Inr d1" "derive_funding_stage d1 = Inr d2"
       "derive_employee_size d2 = Inr d'"
    by (auto simp: calculate_derived_metrics_def split: sum.splits)
  from assms(2) have k: "k \<noteq> ''company_age''" "k \<noteq> ''funding_stage''" "k \<noteq> ''employee_size''"
    by (auto simp: derived_fields_def)
  show ?thesis
    using map_of_derive_company_age [OF s(1) k(1)] map_of_derive_funding_stage [OF s(2) k(2)]
      map_of_derive_employee_size [OF s(3) k(3)] by simp
qed

lemma map_of_merge_scalars:
  assumes "k \<in> set numeric_fields"
  shows "map_of (merge_scalars fmt ds m) k = map_of m k"
  using assms
  by (auto simp: numeric_fields_def merge_scalars_def map_of_merge_first_text
      map_of_merge_founded_year map_of_merge_description map_of_merge_website
      map_of_merge_funding_rounds)

lemma merge_data_sources_Inr:
  assumes "merge_data_sources fmt ds name = Inr r"
  obtains m1 m2 where
    "merge_names ''founders'' ds (merge_numbers ds [(''name'', PStr name)]) = Inr m1"
    "merge_names ''investors'' ds m1 = Inr m2"
    "calculate_derived_metrics (merge_scalars fmt ds m2) = Inr r"
  using assms by (auto simp: merge_data_sources_def split: sum.splits)

lemma map_of_merged_numeric:
  assumes "merge_data_sources fmt ds name = Inr r" and "k \<in> set numeric_fields"
  shows "map_of r k = map_of (merge_numbers ds [(''name'', PStr name)]) k"
proof -
  from assms(1) obtain m1 m2 where
    s: "merge_names ''founders'' ds (merge_numbers ds [(''name'', PStr name)]) = Inr m1"
       "merge_names ''investors'' ds m1 = Inr m2"
       "calculate_derived_metrics (merge_scalars fmt ds m2) = Inr r"
    by (rule merge_data_sources_Inr)
  from assms(2) have k: "k \<noteq> ''founders''" "k \<noteq> ''investors''" "k \<notin> set derived_fields"
    by (auto simp: numeric_fields_def derived_fields_def)
  show ?thesis
    using map_of_calculate_derived_metrics [OF s(3) k(3)] map_of_merge_scalars [OF assms(2)]
      map_of_merge_names [OF s(2) k(2)] map_of_merge_names [OF s(1) k(1)] by simp
qed

lemma map_of_merge_numbers:
  assumes "k \<in> set numeric_fields"
  shows "map_of (merge_numbers ds [(''name'', PStr name)]) k =
           (case numeric_values ds k of [] \<Rightarrow> None | v # vs \<Rightarrow> Some (py_max_from v vs))"
  using assms
  by (auto simp: numeric_fields_def merge_numbers_def map_of_merge_numeric split: list.splits)

text \<open>
  Claim C1. For every mapping of source results on which the merge returns, each of
  the numeric fields \<^verbatim>\<open>funding_raised\<close>, \<^verbatim>\<open>valuation\<close>, \<^verbatim>\<open>employees\<close> and \<^verbatim>\<open>revenue\<close>
  of the merged record is one of the positive numbers that the sources of the
  priority list report for it and no such number is greater; the field is absent
  exactly when no source reports a positive number for it.
\<close>

theorem numeric_fields_maximum:
  assumes "merge_data_sources fmt data_sources company_name = Inr merged"
    and "field \<in> set numeric_fields"
  shows "case map_of merged field of
           None \<Rightarrow> positive_values data_sources field = {}
         | Some m \<Rightarrow> m \<in> positive_values data_sources field \<and>
             (\<exists>b. num_val m = Some b \<and>
                (\<forall>v \<in> positive_values data_sources field. \<exists>y. num_val v = Some y \<and> y \<le> b))"
proof (cases "numeric_values data_sources field")
  case Nil
  then have "map_of merged field = None"
    using map_of_merged_numeric [OF assms] map_of_merge_numbers [OF assms(2)] by simp
  moreover from Nil have "positive_values data_sources field = {}"
    using set_numeric_values [of data_sources field] by simp
  ultimately show ?thesis by simp
next
  case (Cons v vs)
  then have m: "map_of merged field = Some (py_max_from v vs)"
    using map_of_merged_numeric [OF assms] map_of_merge_numbers [OF assms(2)] by simp
  have P: "positive_values data_sources field = set (v # vs)"
    using Cons set_numeric_values [of data_sources field] by simp
  then have nums: "\<forall>w \<in> set (v # vs). \<exists>x. num_val w = Some x"
    by (auto simp: positive_values_def)
  then obtain a where a: "num_val v = Some a" by auto
  from nums have "\<forall>w \<in> set vs. num_val w \<noteq> None" by auto
  from py_max_from_upper [OF a this] obtain b where
    b: "num_val (py_max_from v vs) = Some b" "a \<le> b"
       "\<forall>w \<in> set vs. \<exists>y. num_val w = Some y \<and> y \<le> b"
    by blast
  have "py_max_from v vs \<in> positive_values data_sources field"
    using P py_max_from_mem [of v vs] by simp
  moreover have "\<forall>w \<in> positive_values data_sources field. \<exists>y. num_val w = Some y \<and> y \<le> b"
    using P a b by auto
  ultimately show ?thesis using m b(1) by simp
qed

lemmas merge_eval =
  merge_data_sources_def merge_numbers_def merge_numeric_def numeric_values_def reported_def
  source_priority_def isinstance_int_float_def gt_literal_def num_gt_def merge_names_def
  all_items_def list_of_set_def py_eq_def merge_scalars_def merge_first_text_def
  merge_founded_year_def merge_description_def merge_website_def merge_funding_rounds_def
  round_key_def dict_get_def calculate_derived_metrics_def derive_company_age_def
  derive_funding_stage_def derive_employee_size_def lt_literal_def current_year_def

theorem numeric_fields_maximum_witness:
  "PInt 6000000 \<in> positive_values two_totals ''funding_raised''"
proof -
  have e: "merge_data_sources py_str two_totals ''Acme'' =
     Inr [(''name'', PStr ''Acme''), (''funding_raised'', PInt 6000000), (''employees'', PInt 40),
          (''funding_stage'', PStr ''Series A''), (''employee_size'', PStr ''Small (10-49)'')]"
    by (simp add: two_totals_def merge_eval)
  have f: "''funding_raised'' \<in> set numeric_fields"
    by (simp add: numeric_fields_def)
  show ?thesis
    using numeric_fields_maximum [OF e f] by simp
qed
lemma reported_delete_error:
  assumes "map_of ds s = Some [(''error'', e)]" and "field \<noteq> ''error''"
  shows "reported (AList.delete s ds) field = reported ds field"
proof -
  have "(case map_of (AList.delete s ds) source of None \<Rightarrow> []
          | Some d \<Rightarrow> (case map_of d field of None \<Rightarrow> [] | Some v \<Rightarrow> [v])) =
        (case map_of ds source of None \<Rightarrow> []
          | Some d \<Rightarrow> (case map_of d field of None \<Rightarrow> [] | Some v \<Rightarrow> [v]))" for source
    using assms by (cases "source = s") (simp_all add: delete_conv')
  then show ?thesis by (simp add: reported_def)
qed

lemma merge_steps_delete_error:
  assumes "map_of ds s = Some [(''error'', e)]"
  shows "f \<noteq> ''error'' \<Longrightarrow> merge_numeric f (AList.delete s ds) = merge_numeric f ds"
    and "f \<noteq> ''error'' \<Longrightarrow> merge_names f (AList.delete s ds) = merge_names f ds"
    and "f \<noteq> ''error'' \<Longrightarrow> merge_first_text f (AList.delete s ds) = merge_first_text f ds"
    and "merge_founded_year (AList.delete s ds) = merge_founded_year ds"
    and "merge_description (AList.delete s ds) = merge_description ds"
    and "merge_website (AList.delete s ds) = merge_website ds"
    and "merge_funding_rounds fmt (AList.delete s ds) = merge_funding_rounds fmt ds"
  by (simp_all only: fun_eq_iff merge_numeric_def numeric_values_def merge_names_def
      all_items_def merge_first_text_def merge_founded_year_def merge_description_def
      merge_website_def merge_funding_rounds_def reported_delete_error [OF assms]
      list.inject char.inject simp_thms not_False_eq_True)

text \<open>
  Claim C2. When a source is present in the mapping only as an error descriptor
  \<^verbatim>\<open>{"error": ...}\<close>, the merge gives the same outcome as on the mapping with that
  source removed: the errored source contributes no value to any merged field.
\<close>

theorem errored_source_contributes_nothing:
  assumes "map_of data_sources source = Some [(''error'', e)]"
  shows "merge_data_sources fmt (AList.delete source data_sources) company_name =
         merge_data_sources fmt data_sources company_name"
  unfolding merge_data_sources_def merge_numbers_def merge_scalars_def
  by (simp only: merge_steps_delete_error [OF assms] list.inject char.inject simp_thms
      not_False_eq_True)

theorem errored_source_contributes_nothing_witness:
  "merge_data_sources py_str (AList.delete ''web_search'' with_error) ''Acme'' =
   merge_data_sources py_str with_error ''Acme''"
proof -
  have "map_of with_error ''web_search'' = Some [(''error'', PStr ''timed out'')]"
    by (simp add: with_error_def)
  then show ?thesis by (rule errored_source_contributes_nothing)
qed

lemma keys_update: "dict_keys (AList.update k v m) = insert k (dict_keys m)"
  by (simp add: dict_keys_def dom_update)

lemma keys_step:
  assumes "m' = m \<or> (\<exists>v. m' = AList.update f v m)"
    and "dict_keys m \<subseteq> K" and "f \<in> K"
  shows "dict_keys m' \<subseteq> K"
  using assms by (elim disjE exE) (simp_all add: keys_update)

lemma keys_merge_numeric:
  "dict_keys m \<subseteq> K \<Longrightarrow> f \<in> K \<Longrightarrow> dict_keys (merge_numeric f ds m) \<subseteq> K"
  by (erule keys_step [rotated]) (auto simp: merge_numeric_def split: list.splits)

lemma keys_merge_first_text:
  "dict_keys m \<subseteq> K \<Longrightarrow> f \<in> K \<Longrightarrow> dict_keys (merge_first_text f ds m) \<subseteq> K"
  by (erule keys_step [rotated]) (auto simp: merge_first_text_def split: option.splits)

lemma keys_merge_founded_year:
  "dict_keys m \<subseteq> K \<Longrightarrow> ''founded_year'' \<in> K \<Longrightarrow> dict_keys (merge_founded_year ds m) \<subseteq> K"
  by (erule keys_step [rotated]) (auto simp: merge_founded_year_def split: option.splits)

lemma keys_merge_description:
  "dict_keys m \<subseteq> K \<Longrightarrow> ''description'' \<in> K \<Longrightarrow> dict_keys (merge_description ds m) \<subseteq> K"
  by (erule keys_step [rotated]) (auto simp: merge_description_def split: list.splits)

lemma keys_merge_website:
  "dict_keys m \<subseteq> K \<Longrightarrow> ''website'' \<in> K \<Longrightarrow> dict_keys (merge_website ds m) \<subseteq> K"
  by (erule keys_step [rotated]) (auto simp: merge_website_def split: option.splits)

lemma keys_merge_funding_rounds:
  "dict_keys m \<subseteq> K \<Longrightarrow> ''funding_rounds'' \<in> K \<Longrightarrow>
   dict_keys (merge_funding_rounds fmt ds m) \<subseteq> K"
  by (erule keys_step [rotated]) (auto simp: merge_funding_rounds_def Let_def)

lemma keys_merge_names:
  "merge_names f ds m = Inr m' \<Longrightarrow> dict_keys m \<subseteq> K \<Longrightarrow> f \<in> K \<Longrightarrow> dict_keys m' \<subseteq> K"
  by (erule keys_step [rotated]) (auto simp: merge_names_def Let_def split: if_splits sum.splits)

lemma keys_derive_company_age:
  "derive_company_age d = Inr d' \<Longrightarrow> dict_keys d \<subseteq> K \<Longrightarrow> ''company_age'' \<in> K \<Longrightarrow>
   dict_keys d' \<subseteq> K"
  by (erule keys_step [rotated])
    (auto simp: derive_company_age_def split: if_splits sum.splits)

lemma keys_derive_funding_stage:
  "derive_funding_stage d = Inr d' \<Longrightarrow> dict_keys d \<subseteq> K \<Longrightarrow> ''funding_stage'' \<in> K \<Longrightarrow>
   dict_keys d' \<subseteq> K"
  by (erule keys_step [rotated])
    (auto simp: derive_funding_stage_def split: if_splits sum.splits)

lemma keys_derive_employee_size:
  "derive_employee_size d = Inr d' \<Longrightarrow> dict_keys d \<subseteq> K \<Longrightarrow> ''employee_size'' \<in> K \<Longrightarrow>
   dict_keys d' \<subseteq> K"
  by (erule keys_step [rotated])
    (auto simp: derive_employee_size_def split: if_splits sum.splits)

lemma keys_calculate_derived_metrics:
  assumes "calculate_derived_metrics d = Inr d'" and "dict_keys d \<subseteq> K"
    and "set derived_fields \<subseteq> K"
  shows "dict_keys d' \<subseteq> K"
proof -
  from assms(1) obtain d1 d2 where
    s: "derive_company_age d = Inr d1" "derive_funding_stage d1 = Inr d2"
       "derive_employee_size d2 = Inr d'"
    by (auto simp: calculate_derived_metrics_def split: sum.splits)
  from assms(3) have k: "''company_age'' \<in> K" "''funding_stage'' \<in> K" "''employee_size'' \<in> K"
    by (auto simp: derived_fields_def)
  have "dict_keys d1 \<subseteq> K" by (rule keys_derive_company_age [OF s(1) assms(2) k(1)])
  then have "dict_keys d2 \<subseteq> K" by (rule keys_derive_funding_stage [OF s(2) _ k(2)])
  then show ?thesis by (rule keys_derive_employee_size [OF s(3) _ k(3)])
qed

lemma keys_merge_numbers:
  assumes "dict_keys m \<subseteq> K" and "set numeric_fields \<subseteq> K"
  shows "dict_keys (merge_numbers ds m) \<subseteq> K"
  unfolding merge_numbers_def
  using assms by (intro keys_merge_numeric) (auto simp: numeric_fields_def)

lemma keys_merge_scalars:
  assumes "dict_keys m \<subseteq> K"
    and "set [''ceo'', ''founded_year'', ''description'', ''website'', ''location'',
           ''funding_rounds''] \<subseteq> K"
  shows "dict_keys (merge_scalars fmt ds m) \<subseteq> K"
  unfolding merge_scalars_def
  using assms
  by (intro keys_merge_funding_rounds keys_merge_first_text keys_merge_website
      keys_merge_description keys_merge_founded_year) auto

text \<open>
  Claim C10. The keys of a merged record are confined to \<^verbatim>\<open>name\<close>, the four numeric
  fields, \<^verbatim>\<open>founders\<close>, \<^verbatim>\<open>investors\<close>, \<^verbatim>\<open>ceo\<close>, \<^verbatim>\<open>founded_year\<close>, \<^verbatim>\<open>description\<close>,
  \<^verbatim>\<open>website\<close>, \<^verbatim>\<open>location\<close>, \<^verbatim>\<open>funding_rounds\<close> and the three derived fields; in
  particular \<^verbatim>\<open>market_cap\<close> is never a key of it, whatever the sources report.
\<close>

theorem merged_record_fields:
  assumes "merge_data_sources fmt data_sources company_name = Inr merged"
  shows "dict_keys merged \<subseteq> set merged_fields \<and> ''market_cap'' \<notin> dict_keys merged"
proof -
  from assms obtain m1 m2 where
    s: "merge_names ''founders'' data_sources
          (merge_numbers data_sources [(''name'', PStr company_name)]) = Inr m1"
       "merge_names ''investors'' data_sources m1 = Inr m2"
       "calculate_derived_metrics (merge_scalars fmt data_sources m2) = Inr merged"
    by (rule merge_data_sources_Inr)
  let ?K = "set merged_fields"
  have "dict_keys [(''name'', PStr company_name)] \<subseteq> ?K"
    by (simp add: dict_keys_def merged_fields_def)
  then have "dict_keys (merge_numbers data_sources [(''name'', PStr company_name)]) \<subseteq> ?K"
    by (rule keys_merge_numbers) (simp add: merged_fields_def numeric_fields_def)
  then have "dict_keys m1 \<subseteq> ?K"
    by (rule keys_merge_names [OF s(1)]) (simp add: merged_fields_def)
  then have "dict_keys m2 \<subseteq> ?K"
    by (rule keys_merge_names [OF s(2)]) (simp add: merged_fields_def)
  then have "dict_keys (merge_scalars fmt data_sources m2) \<subseteq> ?K"
    by (rule keys_merge_scalars) (simp add: merged_fields_def)
  then have "dict_keys merged \<subseteq> ?K"
    by (rule keys_calculate_derived_metrics [OF s(3)]) (simp add: merged_fields_def derived_fields_def)
  moreover have "''market_cap'' \<notin> ?K"
    by (simp add: merged_fields_def derived_fields_def)
  ultimately show ?thesis by auto
qed

theorem merged_record_fields_witness:
  "map_of with_error ''crunchbase'' =
     Some [(''funding_raised'', PInt 2000000), (''market_cap'', PInt 9000000)] \<and>
   ''market_cap'' \<notin> dict_keys [(''name'', PStr ''Acme''), (''funding_raised'', PInt 6000000),
        (''employees'', PInt 40), (''funding_stage'', PStr ''Series A''),
        (''employee_size'', PStr ''Small (10-49)'')]"
proof -
  have e: "merge_data_sources py_str with_error ''Acme'' =
     Inr [(''name'', PStr ''Acme''), (''funding_raised'', PInt 6000000), (''employees'', PInt 40),
          (''funding_stage'', PStr ''Series A''), (''employee_size'', PStr ''Small (10-49)'')]"
    by (simp add: with_error_def merge_eval)
  show ?thesis
    using merged_record_fields [OF e] by (simp add: with_error_def)
qed

lemma map_of_initial: "k \<noteq> ''name'' \<Longrightarrow> map_of [(''name'', PStr name)] k = None"
  by simp

lemma map_of_merge_numeric_other:
  "k \<noteq> f \<Longrightarrow> map_of (merge_numeric f ds m) k = map_of m k"
  by (simp add: map_of_merge_numeric)

lemma map_of_merge_numbers_other:
  "k \<notin> set numeric_fields \<Longrightarrow> map_of (merge_numbers ds m) k = map_of m k"
  by (simp add: merge_numbers_def numeric_fields_def map_of_merge_numeric_other)

lemma map_of_merge_scalars_other:
  assumes "k \<notin> set [''ceo'', ''founded_year'', ''description'', ''website'', ''location'',
     ''funding_rounds'']"
  shows "map_of (merge_scalars fmt ds m) k = map_of m k"
  using assms
  by (simp add: merge_scalars_def map_of_merge_first_text map_of_merge_founded_year
      map_of_merge_description map_of_merge_website map_of_merge_funding_rounds)

lemma before_derived:
  assumes "merge_data_sources fmt ds name = Inr r"
  obtains data where
    "calculate_derived_metrics data = Inr r"
    "\<forall>k \<in> set derived_fields. map_of data k = None"
    "map_of data ''funding_raised'' =
       (case numeric_values ds ''funding_raised'' of [] \<Rightarrow> None
        | v # vs \<Rightarrow> Some (py_max_from v vs))"
    "map_of data ''founded_year'' =
       find (\<lambda>year. py_truthy year \<and> isinstance_int year \<and> gt_literal year 1900)
         (reported ds ''founded_year'')"
proof -
  from assms obtain m1 m2 where
    s: "merge_names ''founders'' ds (merge_numbers ds [(''name'', PStr name)]) = Inr m1"
       "merge_names ''investors'' ds m1 = Inr m2"
       "calculate_derived_metrics (merge_scalars fmt ds m2) = Inr r"
    by (rule merge_data_sources_Inr)
  let ?data = "merge_scalars fmt ds m2"
  have up: "map_of m2 k = map_of (merge_numbers ds [(''name'', PStr name)]) k"
    if "k \<noteq> ''founders''" "k \<noteq> ''investors''" for k
    using map_of_merge_names [OF s(2) that(2)] map_of_merge_names [OF s(1) that(1)] by simp
  have a: "\<forall>k \<in> set derived_fields. map_of ?data k = None"
    by (simp add: derived_fields_def map_of_merge_scalars_other up map_of_merge_numbers_other
        numeric_fields_def)
  have b: "map_of ?data ''funding_raised'' =
       (case numeric_values ds ''funding_raised'' of [] \<Rightarrow> None
        | v # vs \<Rightarrow> Some (py_max_from v vs))"
    by (simp add: map_of_merge_scalars_other up map_of_merge_numbers numeric_fields_def)
  have "map_of m2 ''founded_year'' = None"
    by (simp add: up map_of_merge_numbers_other numeric_fields_def)
  then have "map_of (merge_founded_year ds (merge_first_text ''ceo'' ds m2)) ''founded_year'' =
       find (\<lambda>year. py_truthy year \<and> isinstance_int year \<and> gt_literal year 1900)
         (reported ds ''founded_year'')"
    by (simp add: merge_founded_year_def map_of_merge_first_text update_conv'
        split: option.splits)
  then have c: "map_of ?data ''founded_year'' =
       find (\<lambda>year. py_truthy year \<and> isinstance_int year \<and> gt_literal year 1900)
         (reported ds ''founded_year'')"
    by (simp add: merge_scalars_def map_of_merge_first_text map_of_merge_description
        map_of_merge_website map_of_merge_funding_rounds)
  from s(3) a b c show ?thesis by (rule that)
qed

lemma derived_steps:
  assumes "calculate_derived_metrics d = Inr d'"
  obtains d1 d2 where
    "derive_company_age d = Inr d1" "derive_funding_stage d1 = Inr d2"
    "derive_employee_size d2 = Inr d'"
  using assms by (auto simp: calculate_derived_metrics_def split: sum.splits)

lemma valid_year:
  assumes "py_truthy year \<and> isinstance_int year \<and> gt_literal year 1900"
  obtains y where "year = PInt y" "1900 < y"
  using assms by (cases year) (auto simp: gt_literal_def split: if_splits)

text \<open>
  Claim C7. In every merged record \<^verbatim>\<open>company_age\<close> is \<^verbatim>\<open>current_year\<close> minus
  \<^verbatim>\<open>founded_year\<close> when \<^verbatim>\<open>founded_year\<close> is present, and absent when it is absent;
  \<^verbatim>\<open>current_year\<close> is the constant 2024 of the source.
\<close>

theorem company_age_from_founded_year:
  assumes "merge_data_sources fmt data_sources company_name = Inr merged"
  shows "case map_of merged ''founded_year'' of
           None \<Rightarrow> map_of merged ''company_age'' = None
         | Some year \<Rightarrow> \<exists>y. year = PInt y \<and>
             map_of merged ''company_age'' = Some (PInt (current_year - y))"
proof -
  from assms obtain data where
    d: "calculate_derived_metrics data = Inr merged"
       "\<forall>k \<in> set derived_fields. map_of data k = None"
       "map_of data ''founded_year'' =
          find (\<lambda>year. py_truthy year \<and> isinstance_int year \<and> gt_literal year 1900)
            (reported data_sources ''founded_year'')"
    by (rule before_derived)
  from d(1) obtain d1 d2 where
    s: "derive_company_age data = Inr d1" "derive_funding_stage d1 = Inr d2"
       "derive_employee_size d2 = Inr merged"
    by (rule derived_steps)
  have year: "map_of merged ''founded_year'' = map_of data ''founded_year''"
    using map_of_calculate_derived_metrics [OF d(1), of "''founded_year''"]
    by (simp add: derived_fields_def)
  have age: "map_of merged ''company_age'' = map_of d1 ''company_age''"
    using map_of_derive_funding_stage [OF s(2), of "''company_age''"]
      map_of_derive_employee_size [OF s(3), of "''company_age''"] by simp
  from d(2) have none: "map_of data ''company_age'' = None"
    by (simp add: derived_fields_def)
  show ?thesis
  proof (cases "map_of data ''founded_year''")
    case None
    then have "d1 = data" using s(1) by (simp add: derive_company_age_def dict_get_def)
    with None none year age show ?thesis by simp
  next
    case (Some v)
    with d(3) have "find (\<lambda>year. py_truthy year \<and> isinstance_int year \<and> gt_literal year 1900)
        (reported data_sources ''founded_year'') = Some v"
      by simp
    then have "py_truthy v \<and> isinstance_int v \<and> gt_literal v 1900"
      unfolding find_Some_iff by blast
    then obtain y where y: "v = PInt y" "1900 < y" by (rule valid_year)
    with Some s(1) have "d1 = AList.update ''company_age'' (PInt (current_year - y)) data"
      by (simp add: derive_company_age_def dict_get_def)
    then have "map_of d1 ''company_age'' = Some (PInt (current_year - y))"
      by (simp add: update_conv')
    with Some y year age show ?thesis by simp
  qed
qed

theorem company_age_from_founded_year_witness:
  "merge_data_sources py_str five_million ''Acme'' =
     Inr [(''name'', PStr ''Acme''), (''funding_raised'', PInt 5000000),
          (''founded_year'', PInt 2015), (''company_age'', PInt 9),
          (''funding_stage'', PStr ''Series A'')] \<and>
   (\<exists>y. PInt 2015 = PInt y \<and> PInt 9 = PInt (current_year - y))"
proof -
  have e: "merge_data_sources py_str five_million ''Acme'' =
     Inr [(''name'', PStr ''Acme''), (''funding_raised'', PInt 5000000),
          (''founded_year'', PInt 2015), (''company_age'', PInt 9),
          (''funding_stage'', PStr ''Series A'')]"
    by (simp add: five_million_def merge_eval)
  show ?thesis
    using company_age_from_founded_year [OF e] e by simp
qed

lemma funding_stage_bucket:
  assumes "num_val v = Some x"
  shows "bucket v [(1000000, ''Pre-Seed''), (5000000, ''Seed''), (20000000, ''Series A''),
            (50000000, ''Series B''), (100000000, ''Series C+'')] ''Late Stage'' =
         Inr (if x < 1000000 then ''Pre-Seed'' else if x < 5000000 then ''Seed''
              else if x < 20000000 then ''Series A'' else if x < 50000000 then ''Series B''
              else if x < 100000000 then ''Series C+'' else ''Late Stage'')"
  using assms by (simp add: lt_literal_def)

text \<open>
  Claim C6. In every merged record with \<^verbatim>\<open>funding_raised\<close> present,
  \<^verbatim>\<open>funding_stage\<close> is the bucket of its value, bounds inclusive below and exclusive
  above: below 1,000,000 Pre-Seed, below 5,000,000 Seed, below 20,000,000 Series A,
  below 50,000,000 Series B, below 100,000,000 Series C+, otherwise Late Stage (so
  exactly 5,000,000 is Series A); \<^verbatim>\<open>funding_stage\<close> is absent when \<^verbatim>\<open>funding_raised\<close>
  is absent.
\<close>

theorem funding_stage_buckets:
  assumes "merge_data_sources fmt data_sources company_name = Inr merged"
  shows "case map_of merged ''funding_raised'' of
           None \<Rightarrow> map_of merged ''funding_stage'' = None
         | Some v \<Rightarrow> \<exists>x stage. num_val v = Some x \<and>
             map_of merged ''funding_stage'' = Some (PStr stage) \<and>
             (x < 1000000 \<longrightarrow> stage = ''Pre-Seed'') \<and>
             (1000000 \<le> x \<and> x < 5000000 \<longrightarrow> stage = ''Seed'') \<and>
             (5000000 \<le> x \<and> x < 20000000 \<longrightarrow> stage = ''Series A'') \<and>
             (20000000 \<le> x \<and> x < 50000000 \<longrightarrow> stage = ''Series B'') \<and>
             (50000000 \<le> x \<and> x < 100000000 \<longrightarrow> stage = ''Series C+'') \<and>
             (100000000 \<le> x \<longrightarrow> stage = ''Late Stage'')"
proof -
  from assms obtain data where
    d: "calculate_derived_metrics data = Inr merged"
       "\<forall>k \<in> set derived_fields. map_of data k = None"
       "map_of data ''funding_raised'' =
          (case numeric_values data_sources ''funding_raised'' of [] \<Rightarrow> None
           | v # vs \<Rightarrow> Some (py_max_from v vs))"
    by (rule before_derived)
  from d(1) obtain d1 d2 where
    s: "derive_company_age data = Inr d1" "derive_funding_stage d1 = Inr d2"
       "derive_employee_size d2 = Inr merged"
    by (rule derived_steps)
  have raised: "map_of merged ''funding_raised'' = map_of data ''funding_raised''"
    using map_of_calculate_derived_metrics [OF d(1), of "''funding_raised''"]
    by (simp add: derived_fields_def)
  have raised1: "map_of d1 ''funding_raised'' = map_of data ''funding_raised''"
    using map_of_derive_company_age [OF s(1), of "''funding_raised''"] by simp
  have stage: "map_of merged ''funding_stage'' = map_of d2 ''funding_stage''"
    using map_of_derive_employee_size [OF s(3), of "''funding_stage''"] by simp
  have none: "map_of d1 ''funding_stage'' = None"
    using map_of_derive_company_age [OF s(1), of "''funding_stage''"] d(2)
    by (simp add: derived_fields_def)
  show ?thesis
  proof (cases "map_of data ''funding_raised''")
    case None
    then have "d2 = d1" using s(2) raised1 by (simp add: derive_funding_stage_def dict_get_def)
    with None none raised stage show ?thesis by simp
  next
    case (Some v)
    with d(3) obtain w ws where ws: "numeric_values data_sources ''funding_raised'' = w # ws"
      and v: "v = py_max_from w ws"
      by (auto split: list.splits)
    have "v \<in> set (numeric_values data_sources ''funding_raised'')"
      using py_max_from_mem [of w ws] ws v by simp
    then have "v \<in> positive_values data_sources ''funding_raised''"
      by (simp only: set_numeric_values)
    then obtain x where x: "num_val v = Some x" "0 < x"
      by (auto simp: positive_values_def)
    then have t: "py_truthy v" by (rule positive_truthy)
    let ?stage = "if x < 1000000 then ''Pre-Seed'' else if x < 5000000 then ''Seed''
              else if x < 20000000 then ''Series A'' else if x < 50000000 then ''Series B''
              else if x < 100000000 then ''Series C+'' else ''Late Stage''"
    from Some raised1 have get: "dict_get d1 ''funding_raised'' PNone = v"
      by (simp add: dict_get_def)
    have "d2 = AList.update ''funding_stage'' (PStr ?stage) d1"
      using s(2) t funding_stage_bucket [OF x(1)]
      by (simp only: derive_funding_stage_def get if_True sum.case sum.inject)
    then have "map_of d2 ''funding_stage'' = Some (PStr ?stage)"
      by (simp add: update_conv')
    with Some raised stage x(1) show ?thesis by auto
  qed
qed

theorem funding_stage_buckets_witness:
  "merge_data_sources py_str five_million ''Acme'' =
     Inr [(''name'', PStr ''Acme''), (''funding_raised'', PInt 5000000),
          (''founded_year'', PInt 2015), (''company_age'', PInt 9),
          (''funding_stage'', PStr ''Series A'')] \<and>
   (\<exists>x. num_val (PInt 5000000) = Some x \<and> 5000000 \<le> x \<and> x < 20000000)"
proof -
  have e: "merge_data_sources py_str five_million ''Acme'' =
     Inr [(''name'', PStr ''Acme''), (''funding_raised'', PInt 5000000),
          (''founded_year'', PInt 2015), (''company_age'', PInt 9),
          (''funding_stage'', PStr ''Series A'')]"
    by (simp add: five_million_def merge_eval)
  show ?thesis
    using funding_stage_buckets [OF e] e by simp
qed








lemma loop_skip:
  "\<not> is_dict x \<Longrightarrow>
   unique_rounds_loop fmt (x # rest) acc seen = unique_rounds_loop fmt rest acc seen"
  by (cases x) simp_all

lemma is_dict_key: "is_dict x \<Longrightarrow> (\<And>d. x = PDict d \<Longrightarrow> P) \<Longrightarrow> P"
  by (cases x) simp_all

lemma loop_members:
  "set (unique_rounds_loop fmt xs acc seen) \<subseteq> set acc \<union> {r \<in> set xs. is_dict r}"
proof (induction xs arbitrary: acc seen)
  case Nil
  then show ?case by simp
next
  case (Cons x xs)
  show ?case
  proof (cases "is_dict x")
    case False
    have "set (unique_rounds_loop fmt xs acc seen) \<subseteq> set acc \<union> {r \<in> set xs. is_dict r}"
      by (rule Cons.IH)
    with False show ?thesis by (auto simp: loop_skip)
  next
    case True
    then obtain d where d: "x = PDict d" by (rule is_dict_key)
    show ?thesis
    proof (cases "round_key fmt d \<in> seen")
      case True
      have "set (unique_rounds_loop fmt xs acc seen) \<subseteq> set acc \<union> {r \<in> set xs. is_dict r}"
        by (rule Cons.IH)
      with True d show ?thesis by auto
    next
      case False
      have "set (unique_rounds_loop fmt xs (acc @ [x]) (insert (round_key fmt d) seen)) \<subseteq>
            set (acc @ [x]) \<union> {r \<in> set xs. is_dict r}"
        by (rule Cons.IH)
      with False d show ?thesis by auto
    qed
  qed
qed

lemma loop_keys:
  assumes "seen = entry_key fmt ` set acc"
  shows "entry_key fmt ` set (unique_rounds_loop fmt xs acc seen) =
           seen \<union> entry_key fmt ` {r \<in> set xs. is_dict r}"
  using assms
proof (induction xs arbitrary: acc seen)
  case Nil
  then show ?case by simp
next
  case (Cons x xs)
  show ?case
  proof (cases "is_dict x")
    case False
    have "entry_key fmt ` set (unique_rounds_loop fmt xs acc seen) =
           seen \<union> entry_key fmt ` {r \<in> set xs. is_dict r}"
      using Cons.prems by (rule Cons.IH)
    moreover from False have "{r \<in> set (x # xs). is_dict r} = {r \<in> set xs. is_dict r}"
      by auto
    ultimately show ?thesis by (simp only: loop_skip [OF False])
  next
    case True
    then obtain d where d: "x = PDict d" by (rule is_dict_key)
    have split: "{r \<in> set (x # xs). is_dict r} = insert x {r \<in> set xs. is_dict r}"
      using True by auto
    show ?thesis
    proof (cases "round_key fmt d \<in> seen")
      case True
      have "entry_key fmt ` set (unique_rounds_loop fmt xs acc seen) =
             seen \<union> entry_key fmt ` {r \<in> set xs. is_dict r}"
        using Cons.prems by (rule Cons.IH)
      moreover have "unique_rounds_loop fmt (x # xs) acc seen = unique_rounds_loop fmt xs acc seen"
        using True d by simp
      moreover have "entry_key fmt x \<in> seen" using True d by simp
      ultimately show ?thesis unfolding split by auto
    next
      case False
      have "insert (round_key fmt d) seen = entry_key fmt ` set (acc @ [x])"
        using Cons.prems d by simp
      then have "entry_key fmt ` set (unique_rounds_loop fmt xs (acc @ [x])
                   (insert (round_key fmt d) seen)) =
             insert (round_key fmt d) seen \<union> entry_key fmt ` {r \<in> set xs. is_dict r}"
        by (rule Cons.IH)
      moreover have "unique_rounds_loop fmt (x # xs) acc seen =
          unique_rounds_loop fmt xs (acc @ [x]) (insert (round_key fmt d) seen)"
        using False d by simp
      moreover have "entry_key fmt x = round_key fmt d" using d by simp
      ultimately show ?thesis unfolding split by auto
    qed
  qed
qed

lemma loop_distinct:
  assumes "seen = entry_key fmt ` set acc" and "distinct (map (entry_key fmt) acc)"
  shows "distinct (map (entry_key fmt) (unique_rounds_loop fmt xs acc seen))"
  using assms
proof (induction xs arbitrary: acc seen)
  case Nil
  then show ?case by simp
next
  case (Cons x xs)
  show ?case
  proof (cases "is_dict x")
    case False
    have "distinct (map (entry_key fmt) (unique_rounds_loop fmt xs acc seen))"
      using Cons.prems by (rule Cons.IH)
    then show ?thesis by (simp only: loop_skip [OF False])
  next
    case True
    then obtain d where d: "x = PDict d" by (rule is_dict_key)
    show ?thesis
    proof (cases "round_key fmt d \<in> seen")
      case True
      have "distinct (map (entry_key fmt) (unique_rounds_loop fmt xs acc seen))"
        using Cons.prems by (rule Cons.IH)
      with True d show ?thesis by simp
    next
      case False
      have a: "insert (round_key fmt d) seen = entry_key fmt ` set (acc @ [x])"
        using Cons.prems(1) d by simp
      have b: "distinct (map (entry_key fmt) (acc @ [x]))"
        using Cons.prems False d by simp
      have "distinct (map (entry_key fmt) (unique_rounds_loop fmt xs (acc @ [x])
               (insert (round_key fmt d) seen)))"
        using a b by (rule Cons.IH)
      with False d show ?thesis by simp
    qed
  qed
qed

lemma map_of_merged_rounds:
  assumes "merge_data_sources fmt ds name = Inr r"
  shows "map_of r ''funding_rounds'' =
           (if all_items ds ''funding_rounds'' = [] then None
            else Some (PList (unique_rounds_loop fmt (all_items ds ''funding_rounds'') [] {})))"
proof -
  from assms obtain m1 m2 where
    s: "merge_names ''founders'' ds (merge_numbers ds [(''name'', PStr name)]) = Inr m1"
       "merge_names ''investors'' ds m1 = Inr m2"
       "calculate_derived_metrics (merge_scalars fmt ds m2) = Inr r"
    by (rule merge_data_sources_Inr)
  let ?before = "merge_first_text ''location'' ds (merge_website ds (merge_description ds
      (merge_founded_year ds (merge_first_text ''ceo'' ds m2))))"
  have "map_of m2 ''funding_rounds'' = None"
    using map_of_merge_names [OF s(2), of "''funding_rounds''"]
      map_of_merge_names [OF s(1), of "''funding_rounds''"]
    by (simp add: map_of_merge_numbers_other numeric_fields_def)
  then have "map_of ?before ''funding_rounds'' = None"
    by (simp add: map_of_merge_first_text map_of_merge_founded_year map_of_merge_description
        map_of_merge_website)
  then have "map_of (merge_scalars fmt ds m2) ''funding_rounds'' =
           (if all_items ds ''funding_rounds'' = [] then None
            else Some (PList (unique_rounds_loop fmt (all_items ds ''funding_rounds'') [] {})))"
    by (simp add: merge_scalars_def merge_funding_rounds_def Let_def update_conv')
  moreover have "map_of r ''funding_rounds'' = map_of (merge_scalars fmt ds m2) ''funding_rounds''"
    using map_of_calculate_derived_metrics [OF s(3), of "''funding_rounds''"]
    by (simp add: derived_fields_def)
  ultimately show ?thesis by simp
qed

text \<open>
  Claim C8 as stated fails: a funding round with neither \<^verbatim>\<open>amount\<close> nor \<^verbatim>\<open>type\<close>
  is not dropped; it gets the key \<^verbatim>\<open>"-"\<close> and is kept like any other round.
\<close>

theorem round_without_amount_and_type_counterexample:
  "merge_data_sources py_str undated_round ''Acme'' =
     Inr [(''name'', PStr ''Acme''),
          (''funding_rounds'', PList [PDict [(''date'', PStr ''2021'')]])] \<and>
   map_of [(''date'', PStr ''2021'')] ''amount'' = None \<and>
   map_of [(''date'', PStr ''2021'')] ''type'' = None"
  by (simp add: undated_round_def merge_eval)

lemma one_entry_per_key:
  assumes "distinct (map f xs)" and "k \<in> f ` set xs"
  shows "length (filter (\<lambda>m. f m = k) xs) = 1"
  using assms
proof (induction xs)
  case Nil
  then show ?case by simp
next
  case (Cons x xs)
  show ?case
  proof (cases "f x = k")
    case True
    from Cons.prems(1) have "f x \<notin> f ` set xs" by simp
    with True have "\<forall>m \<in> set xs. f m \<noteq> k" by blast
    then have "filter (\<lambda>m. f m = k) xs = []" by (simp add: filter_empty_conv)
    with True show ?thesis by simp
  next
    case False
    with Cons.prems have "distinct (map f xs)" "k \<in> f ` set xs" by auto
    then have "length (filter (\<lambda>m. f m = k) xs) = 1" by (rule Cons.IH)
    with False show ?thesis by simp
  qed
qed

text \<open>
  Claim C8, amended. The merged \<^verbatim>\<open>funding_rounds\<close> hold only dictionary entries
  reported by the sources (entries that are not dictionaries are dropped), and they
  are deduplicated by the key text \<^verbatim>\<open>f"{amount}-{type}"\<close>: no two merged entries
  have the same key, and for every reported dictionary entry exactly one merged
  entry has that entry's key. The comparison is of the formatted text, not of the
  amount and type as values.
\<close>

theorem funding_rounds_deduplicated:
  assumes "merge_data_sources fmt data_sources company_name = Inr merged"
    and "map_of merged ''funding_rounds'' = Some v"
  shows "\<exists>rounds. v = PList rounds \<and>
           (\<forall>r \<in> set rounds. is_dict r \<and> r \<in> set (all_items data_sources ''funding_rounds'')) \<and>
           distinct (map (entry_key fmt) rounds) \<and>
           (\<forall>r \<in> set (all_items data_sources ''funding_rounds'').
              is_dict r \<longrightarrow>
              length (filter (\<lambda>m. entry_key fmt m = entry_key fmt r) rounds) = 1)"
proof -
  let ?all = "all_items data_sources ''funding_rounds''"
  let ?rounds = "unique_rounds_loop fmt ?all [] {}"
  from map_of_merged_rounds [OF assms(1)] assms(2) have v: "v = PList ?rounds"
    by (simp split: if_splits)
  have mem: "\<forall>r \<in> set ?rounds. is_dict r \<and> r \<in> set ?all"
    using loop_members [of fmt ?all "[]" "{}"] by auto
  have dist: "distinct (map (entry_key fmt) ?rounds)"
    by (rule loop_distinct) simp_all
  have keys: "entry_key fmt ` set ?rounds = entry_key fmt ` {r \<in> set ?all. is_dict r}"
    using loop_keys [of "{}" fmt "[]" ?all] by simp
  have one: "length (filter (\<lambda>m. entry_key fmt m = entry_key fmt r) ?rounds) = 1"
    if "r \<in> set ?all" "is_dict r" for r
  proof -
    from that have "entry_key fmt r \<in> entry_key fmt ` {r \<in> set ?all. is_dict r}" by blast
    with keys have "entry_key fmt r \<in> entry_key fmt ` set ?rounds" by simp
    with dist show ?thesis by (rule one_entry_per_key)
  qed
  from v mem dist one show ?thesis by blast
qed

theorem funding_rounds_deduplicated_witness:
  "merge_data_sources py_str same_round_twice ''Acme'' =
     Inr [(''name'', PStr ''Acme''),
          (''funding_rounds'',
             PList [PDict [(''amount'', PInt 5000000), (''type'', PStr ''Seed'')],
                    PDict [(''amount'', PInt 20000000), (''type'', PStr ''Series A'')]])] \<and>
   length (filter
     (\<lambda>m. entry_key py_str m =
          entry_key py_str (PDict [(''amount'', PInt 5000000), (''type'', PStr ''Seed'')]))
     [PDict [(''amount'', PInt 5000000), (''type'', PStr ''Seed'')],
      PDict [(''amount'', PInt 20000000), (''type'', PStr ''Series A'')]]) = 1"
proof -
  have e: "merge_data_sources py_str same_round_twice ''Acme'' =
     Inr [(''name'', PStr ''Acme''),
          (''funding_rounds'',
             PList [PDict [(''amount'', PInt 5000000), (''type'', PStr ''Seed'')],
                    PDict [(''amount'', PInt 20000000), (''type'', PStr ''Series A'')]])]"
    by (simp add: same_round_twice_def merge_eval decimal.simps digit_char_def)
  have g: "map_of [(''name'', PStr ''Acme''),
          (''funding_rounds'',
             PList [PDict [(''amount'', PInt 5000000), (''type'', PStr ''Seed'')],
                    PDict [(''amount'', PInt 20000000), (''type'', PStr ''Series A'')]])]
        ''funding_rounds'' =
      Some (PList [PDict [(''amount'', PInt 5000000), (''type'', PStr ''Seed'')],
                   PDict [(''amount'', PInt 20000000), (''type'', PStr ''Series A'')]])"
    by simp
  have r: "PDict [(''amount'', PInt 5000000), (''type'', PStr ''Seed'')] \<in>
      set (all_items same_round_twice ''funding_rounds'')"
    by (simp add: same_round_twice_def all_items_def reported_def source_priority_def)
  from funding_rounds_deduplicated [OF e g]
  have "\<forall>r \<in> set (all_items same_round_twice ''funding_rounds'').
          is_dict r \<longrightarrow>
          length (filter (\<lambda>m. entry_key py_str m = entry_key py_str r)
            [PDict [(''amount'', PInt 5000000), (''type'', PStr ''Seed'')],
             PDict [(''amount'', PInt 20000000), (''type'', PStr ''Series A'')]]) = 1"
    by blast
  with r have "length (filter
     (\<lambda>m. entry_key py_str m =
          entry_key py_str (PDict [(''amount'', PInt 5000000), (''type'', PStr ''Seed'')]))
     [PDict [(''amount'', PInt 5000000), (''type'', PStr ''Seed'')],
      PDict [(''amount'', PInt 20000000), (''type'', PStr ''Series A'')]]) = 1"
    by (metis is_dict.simps(1))
  with e show ?thesis by simp
qed

text \<open>
  Amounts that are equal as numbers but are formatted differently, as Python
  formats the integer 5000000 and the float 5000000.0, have different keys, and
  both entries stay.
\<close>

lemma int_and_float_amounts_both_kept:
  assumes "fmt (PInt 5000000) \<noteq> fmt (PFloat 5000000)"
  shows "merge_data_sources fmt int_and_float_amount ''Acme'' =
     Inr [(''name'', PStr ''Acme''),
          (''funding_rounds'',
             PList [PDict [(''amount'', PInt 5000000), (''type'', PStr ''Seed'')],
                    PDict [(''amount'', PFloat 5000000), (''type'', PStr ''Seed'')]])]"
  using assms by (simp add: int_and_float_amount_def merge_eval)

section \<open>Properties of the aggregator\<close>

lemmas aggregator_eval =
  get_comprehensive_data_def scrape_source_def announce_def metadata_def

lemma map_of_merged_name:
  assumes "merge_data_sources fmt ds name = Inr r"
  shows "map_of r ''name'' = Some (PStr name)"
proof -
  from assms obtain m1 m2 where
    s: "merge_names ''founders'' ds (merge_numbers ds [(''name'', PStr name)]) = Inr m1"
       "merge_names ''investors'' ds m1 = Inr m2"
       "calculate_derived_metrics (merge_scalars fmt ds m2) = Inr r"
    by (rule merge_data_sources_Inr)
  show ?thesis
    using map_of_calculate_derived_metrics [OF s(3), of "''name''"]
      map_of_merge_names [OF s(2), of "''name''"] map_of_merge_names [OF s(1), of "''name''"]
    by (simp add: derived_fields_def map_of_merge_scalars_other map_of_merge_numbers_other
        numeric_fields_def)
qed

lemma scrape_source_returns:
  assumes "announce cb source_name i n_sources = None"
    and "\<forall>e. scraper name \<noteq> Aborts e"
  shows "calls (scrape_source cb name n_sources i source_name scraper st) =
           calls st @ [(source_name, name)] \<and>
         aborted (scrape_source cb name n_sources i source_name scraper st) = aborted st"
  using assms by (simp add: scrape_source_def split: outcome.splits)

lemma scrape_all_returns:
  assumes "\<forall>source_name i. announce cb source_name i n_sources = None"
    and "\<forall>entry \<in> set scrapers. \<forall>e. snd entry name \<noteq> Aborts e"
    and "aborted st = None"
  shows "calls (scrape_all cb name n_sources i scrapers st) =
           calls st @ map (\<lambda>entry. (fst entry, name)) scrapers \<and>
         aborted (scrape_all cb name n_sources i scrapers st) = None"
  using assms
proof (induction scrapers arbitrary: i st)
  case Nil
  then show ?case by simp
next
  case (Cons entry scrapers)
  obtain source_name scraper where entry: "entry = (source_name, scraper)"
    by (cases entry)
  let ?st = "scrape_source cb name n_sources i source_name scraper st"
  from Cons.prems(1) have quiet: "announce cb source_name i n_sources = None" by simp
  from Cons.prems(2) entry have "\<forall>e. scraper name \<noteq> Aborts e" by simp
  with quiet have step: "calls ?st = calls st @ [(source_name, name)] \<and> aborted ?st = aborted st"
    by (rule scrape_source_returns)
  with Cons.prems(3) have ok: "aborted ?st = None" by simp
  from Cons.prems(2) have rest: "\<forall>entry \<in> set scrapers. \<forall>e. snd entry name \<noteq> Aborts e" by simp
  from Cons.IH [OF Cons.prems(1) rest ok, of "i + 1"] step ok entry show ?case by simp
qed

lemma quiet_announce:
  assumes "case cb of None \<Rightarrow> True | Some callback \<Rightarrow> \<forall>message fraction. callback message fraction = None"
  shows "\<forall>source_name i. announce cb source_name i n_sources = None"
  using assms by (auto simp: announce_def split: option.splits)

text \<open>
  Claim C3 as stated fails: the method has no validation of \<^verbatim>\<open>company_name\<close>. With
  the empty name every registered scraper is invoked and a record is returned.
\<close>

theorem empty_name_counterexample:
  "get_comprehensive_data py_str 1700000000 sample_scrapers '''' None =
     ([(''crunchbase'', ''''), (''linkedin'', ''''), (''web_search'', ''''), (''simple_web'', '''')],
      Inr [(''name'', PStr ''''), (''funding_raised'', PInt 2000000),
           (''funding_stage'', PStr ''Seed''),
           (''metadata'', PDict [(''successful_sources'', PInt 2), (''total_sources'', PInt 4),
              (''scraped_sources'', PList [PStr ''crunchbase'', PStr ''linkedin'',
                 PStr ''web_search'', PStr ''simple_web'']),
              (''timestamp'', PFloat 1700000000)])])"
  by (simp add: sample_scrapers_def aggregator_eval merge_eval)

text \<open>
  Claim C3, amended. \<^verbatim>\<open>get_comprehensive_data\<close> does not validate \<^verbatim>\<open>company_name\<close>:
  for every name, empty and whitespace-only names included, when the progress
  callback is absent or returns normally and no scraper raises an exception outside
  the \<^verbatim>\<open>Exception\<close> hierarchy, every registered scraper is invoked exactly once
  with that name as given, in registration order, no exception of a scraper leaves
  the loop, and a record that is returned has \<^verbatim>\<open>name\<close> equal to \<^verbatim>\<open>company_name\<close>.
  Whether the merge that follows raises is not part of the statement.
\<close>

theorem no_validation_of_company_name:
  assumes "case progress_callback of None \<Rightarrow> True
           | Some callback \<Rightarrow> \<forall>message fraction. callback message fraction = None"
    and "\<forall>entry \<in> set scrapers. \<forall>e. snd entry company_name \<noteq> Aborts e"
  shows "fst (get_comprehensive_data fmt now scrapers company_name progress_callback) =
           map (\<lambda>entry. (fst entry, company_name)) scrapers \<and>
         (case snd (get_comprehensive_data fmt now scrapers company_name progress_callback) of
            Inl (Left_loop e) \<Rightarrow> False
          | Inl (Merge_raised e) \<Rightarrow> True
          | Inr record \<Rightarrow> map_of record ''name'' = Some (PStr company_name))"
proof -
  let ?st = "scrape_all progress_callback company_name (length scrapers) 0 scrapers
               \<lparr>all_data = [], successful_sources = 0, calls = [], aborted = None\<rparr>"
  have st: "calls ?st = map (\<lambda>entry. (fst entry, company_name)) scrapers \<and> aborted ?st = None"
    using scrape_all_returns [OF quiet_announce [OF assms(1)] assms(2)] by simp
  then have a: "fst (get_comprehensive_data fmt now scrapers company_name progress_callback) =
           map (\<lambda>entry. (fst entry, company_name)) scrapers"
    by (simp add: get_comprehensive_data_def Let_def)
  have b: "case snd (get_comprehensive_data fmt now scrapers company_name progress_callback) of
            Inl (Left_loop e) \<Rightarrow> False
          | Inl (Merge_raised e) \<Rightarrow> True
          | Inr record \<Rightarrow> map_of record ''name'' = Some (PStr company_name)"
  proof (cases "merge_data_sources fmt (all_data ?st) company_name")
    case (Inl e)
    with st show ?thesis by (simp add: get_comprehensive_data_def Let_def)
  next
    case (Inr merged)
    with st show ?thesis
      using map_of_merged_name [OF Inr]
      by (simp add: get_comprehensive_data_def Let_def update_conv')
  qed
  from a b show ?thesis by simp
qed

theorem no_validation_of_company_name_witness:
  "fst (get_comprehensive_data py_str 1700000000 sample_scrapers '''' None) =
     [(''crunchbase'', ''''), (''linkedin'', ''''), (''web_search'', ''''), (''simple_web'', '''')]"
proof -
  have quiet: "case None :: progress_callback option of None \<Rightarrow> True
        | Some callback \<Rightarrow> \<forall>message fraction. callback message fraction = None"
    by simp
  have returns: "\<forall>entry \<in> set sample_scrapers. \<forall>e. snd entry '''' \<noteq> Aborts e"
    by (simp add: sample_scrapers_def)
  from no_validation_of_company_name [OF quiet returns, of py_str 1700000000]
  show ?thesis by (simp add: sample_scrapers_def)
qed

text \<open>
  A scraper that raises outside the \<^verbatim>\<open>Exception\<close> hierarchy ends the call: the
  scrapers after it are not invoked.
\<close>

lemma uncaught_exception_leaves_the_loop:
  "get_comprehensive_data py_str 1700000000
     [(''crunchbase'', \<lambda>company_name. Aborts ''KeyboardInterrupt''),
      (''linkedin'', \<lambda>company_name. Returns [(''employees'', PInt 40)])] ''Acme'' None =
   ([(''crunchbase'', ''Acme'')], Inl (Left_loop ''KeyboardInterrupt''))"
  by (simp add: aggregator_eval)







section \<open>Properties of the field extractor\<close>

text \<open>On well-formed text the amounts are found and scaled; without a match the list is empty.\<close>

lemma extract_funding_amounts_example:
  "extract_funding_amounts ''raised $12.5 million'' = Inr [12500000, 12500000]"
  by code_simp

lemma extract_funding_amounts_no_match:
  "extract_funding_amounts ''no amount here'' = Inr []"
  by code_simp

text \<open>
  Claim C5 says that the extraction functions never raise. The expression
  \<^verbatim>\<open>[\d,]+\.?\d*\<close> of \<^verbatim>\<open>_parse_funding_amount\<close> also matches a run of commas
  without any digit; the commas are then removed and \<^verbatim>\<open>float('')\<close> raises
  \<^verbatim>\<open>ValueError\<close>, which \<^verbatim>\<open>_extract_funding_amounts\<close> does not catch: on the text
  \<^verbatim>\<open>$,M\<close> the first expression matches and the call raises.
\<close>

theorem funding_amount_of_commas_raises:
  "extract_funding_amounts ''$,M'' = Inl ValueError \<and>
   parse_funding_amount '','' = Inl ValueError"
  by code_simp


end
